theory Spec2Isabelle
  imports Main
begin

section \<open>Data model of \<open>src/index.tsx\<close>\<close>

text \<open>
  \<^verbatim>\<open>export type LiveAnnouncerPriority = "polite" | "assertive";\<close>
\<close>

datatype LiveAnnouncerPriority = Polite | Assertive

text \<open>
  \<^verbatim>\<open>interface LiveAnnouncerOptions { priority?: LiveAnnouncerPriority; id?: string; }\<close>
  Both fields are optional; a missing field is \<open>None\<close>. The field \<open>id\<close> is written
  \<open>id_o\<close>, since \<open>id\<close> is the identity function of HOL.
\<close>

record LiveAnnouncerOptions =
  priority :: "LiveAnnouncerPriority option"
  id_o :: "string option"

text \<open>\<^verbatim>\<open>interface AnnouncementState { message: string; id: string; }\<close>\<close>

record AnnouncementState =
  message :: string
  id_s :: string

text \<open>
  The state owned by one \<open>LiveAnnouncerProvider\<close>: the two index refs, the four
  \<open>useState\<close> strings, the two last-announcement refs and the timeout ref. The last
  three fields are the host's timer queue as far as the provider uses it: the clock,
  the pending timeouts (handle and due time; the callback of every timeout the provider
  sets is \<open>clearAnnouncements\<close>) and the next handle \<open>setTimeout\<close> will return.
  A handle returned by \<open>setTimeout\<close> is truthy (a positive number in a browser, an
  object in Node), so \<open>if (clearTimeoutRef.current)\<close> is the test for \<open>Some\<close>.
  The clock, the due times and the configured delay are whole numbers of milliseconds.
\<close>

record provider =
  politeIndexRef :: nat
  assertiveIndexRef :: nat
  polite1 :: string
  polite2 :: string
  assertive1 :: string
  assertive2 :: string
  lastPoliteRef :: AnnouncementState
  lastAssertiveRef :: AnnouncementState
  clearTimeoutRef :: "nat option"
  now :: int
  timers :: "(nat \<times> int) list"
  nextHandle :: nat

text \<open>The state right after the provider is mounted (lines 106 to 117), at clock 0.\<close>

definition initialProvider :: provider where
  "initialProvider =
     \<lparr> politeIndexRef = 0, assertiveIndexRef = 0,
       polite1 = [], polite2 = [], assertive1 = [], assertive2 = [],
       lastPoliteRef = \<lparr> message = [], id_s = [] \<rparr>,
       lastAssertiveRef = \<lparr> message = [], id_s = [] \<rparr>,
       clearTimeoutRef = None,
       now = 0, timers = [], nextHandle = 1 \<rparr>"

section \<open>The host's timers\<close>

text \<open>
  The host does not keep every delay it is given: it holds a delay as a signed 32-bit
  number of milliseconds. A delay between 1 and 2147483647 is kept as it is; for the
  others the rule here is Node's, \<^verbatim>\<open>if (!(after >= 1 && after <= TIMEOUT_MAX)) after = 1\<close>
  with \<open>TIMEOUT_MAX\<close> = 2147483647. The provider passes no delay below 1 (line 173).
\<close>

definition hostDelay :: "int \<Rightarrow> int" where
  "hostDelay delay = (if 1 \<le> delay \<and> delay \<le> 2147483647 then delay else 1)"

definition setTimeout :: "int \<Rightarrow> provider \<Rightarrow> provider" where
  "setTimeout delay s =
     s\<lparr> clearTimeoutRef := Some (nextHandle s),
        timers := timers s @ [(nextHandle s, now s + hostDelay delay)],
        nextHandle := Suc (nextHandle s) \<rparr>"

definition clearTimeout :: "nat \<Rightarrow> provider \<Rightarrow> provider" where
  "clearTimeout h s = s\<lparr> timers := filter (\<lambda>(h', due). h' \<noteq> h) (timers s) \<rparr>"

section \<open>The provider's operations\<close>

text \<open>Lines 123 to 130.\<close>

definition clearAnnouncements :: "provider \<Rightarrow> provider" where
  "clearAnnouncements s =
     s\<lparr> polite1 := [], polite2 := [], assertive1 := [], assertive2 := [],
        lastPoliteRef := \<lparr> message = [], id_s = [] \<rparr>,
        lastAssertiveRef := \<lparr> message = [], id_s = [] \<rparr> \<rparr>"

text \<open>
  JavaScript truthiness of \<open>id\<close>: \<open>undefined\<close> and the empty string are falsy.
\<close>

definition truthy :: "string option \<Rightarrow> bool" where
  "truthy i = (case i of None \<Rightarrow> False | Some x \<Rightarrow> x \<noteq> [])"

text \<open>
  \<^verbatim>\<open>lastState.message === message && lastState.id === id && id\<close> (lines 140 and 157).
\<close>

definition suppressed :: "AnnouncementState \<Rightarrow> string \<Rightarrow> string option \<Rightarrow> bool" where
  "suppressed lastState msg i = (message lastState = msg \<and> Some (id_s lastState) = i \<and> truthy i)"

text \<open>Lines 144 to 153: the accepted write on the assertive channel.\<close>

definition writeAssertive :: "string \<Rightarrow> string \<Rightarrow> provider \<Rightarrow> provider" where
  "writeAssertive msg announcementId s =
     (let currentIndex = assertiveIndexRef s;
          s1 = (if currentIndex = 0 then s\<lparr> assertive1 := msg, assertive2 := [] \<rparr>
                else s\<lparr> assertive2 := msg, assertive1 := [] \<rparr>)
      in s1\<lparr> assertiveIndexRef := (if currentIndex = 0 then 1 else 0),
             lastAssertiveRef := \<lparr> message = msg, id_s = announcementId \<rparr> \<rparr>)"

text \<open>Lines 161 to 170: the accepted write on the polite channel.\<close>

definition writePolite :: "string \<Rightarrow> string \<Rightarrow> provider \<Rightarrow> provider" where
  "writePolite msg announcementId s =
     (let currentIndex = politeIndexRef s;
          s1 = (if currentIndex = 0 then s\<lparr> polite1 := msg, polite2 := [] \<rparr>
                else s\<lparr> polite2 := msg, polite1 := [] \<rparr>)
      in s1\<lparr> politeIndexRef := (if currentIndex = 0 then 1 else 0),
             lastPoliteRef := \<lparr> message = msg, id_s = announcementId \<rparr> \<rparr>)"

text \<open>Lines 173 to 180: cancel the timeout the ref holds, then set a new one.\<close>

definition armTimer :: "int \<Rightarrow> provider \<Rightarrow> provider" where
  "armTimer clearOnUnmountDelay s =
     (if clearOnUnmountDelay > 0 then
        setTimeout clearOnUnmountDelay
          (case clearTimeoutRef s of None \<Rightarrow> s | Some h \<Rightarrow> clearTimeout h s)
      else s)"

text \<open>
  \<^verbatim>\<open>const announcementId = id || generateId();\<close> (line 135), where \<open>generated\<close> is
  what \<open>generateId()\<close> returns.
\<close>

definition announcementId :: "string option \<Rightarrow> string \<Rightarrow> string" where
  "announcementId i generated =
     (case i of None \<Rightarrow> generated | Some x \<Rightarrow> if x \<noteq> [] then x else generated)"

text \<open>
  Lines 132 to 183. \<open>generated\<close> is the string \<open>generateId()\<close> returns when it is called
  (it reads the clock and a random number); it is called only when \<open>id\<close> is falsy.
  The early \<open>return\<close> of a suppressed call skips the timer.
\<close>

definition announce :: "int \<Rightarrow> string \<Rightarrow> string \<Rightarrow> LiveAnnouncerOptions \<Rightarrow> provider \<Rightarrow> provider" where
  "announce clearOnUnmountDelay generated msg options s =
     (let prio = (case priority options of None \<Rightarrow> Polite | Some p \<Rightarrow> p);
          i = id_o options;
          aid = announcementId i generated
      in if prio = Assertive then
           (if suppressed (lastAssertiveRef s) msg i then s
            else armTimer clearOnUnmountDelay (writeAssertive msg aid s))
         else
           (if suppressed (lastPoliteRef s) msg i then s
            else armTimer clearOnUnmountDelay (writePolite msg aid s)))"

text \<open>Lines 185 to 197.\<close>

definition announcePolite :: "int \<Rightarrow> string \<Rightarrow> string \<Rightarrow> string option \<Rightarrow> provider \<Rightarrow> provider" where
  "announcePolite clearOnUnmountDelay generated msg i s =
     announce clearOnUnmountDelay generated msg \<lparr> priority = Some Polite, id_o = i \<rparr> s"

definition announceAssertive :: "int \<Rightarrow> string \<Rightarrow> string \<Rightarrow> string option \<Rightarrow> provider \<Rightarrow> provider" where
  "announceAssertive clearOnUnmountDelay generated msg i s =
     announce clearOnUnmountDelay generated msg \<lparr> priority = Some Assertive, id_o = i \<rparr> s"

text \<open>
  The host advances its clock by \<open>t\<close>: every pending timeout that is due leaves the queue
  and its callback \<open>() => { clearAnnouncements(); }\<close> runs (line 177).
\<close>

primrec fire :: "nat \<Rightarrow> provider \<Rightarrow> provider" where
  "fire 0 s = s"
| "fire (Suc n) s = fire n (clearAnnouncements s)"

definition advanceTimersByTime :: "nat \<Rightarrow> provider \<Rightarrow> provider" where
  "advanceTimersByTime t s =
     (let deadline = now s + int t;
          due = filter (\<lambda>(h, at). at \<le> deadline) (timers s)
      in fire (length due)
           (s\<lparr> now := deadline,
               timers := filter (\<lambda>(h, at). \<not> at \<le> deadline) (timers s) \<rparr>))"

section \<open>Reading the state by channel\<close>

text \<open>The channel a call goes to: \<^verbatim>\<open>const { priority = "polite", id } = options;\<close>\<close>

definition channel :: "LiveAnnouncerOptions \<Rightarrow> LiveAnnouncerPriority" where
  "channel options = (case priority options of None \<Rightarrow> Polite | Some p \<Rightarrow> p)"

definition cursor :: "LiveAnnouncerPriority \<Rightarrow> provider \<Rightarrow> nat" where
  "cursor ch s = (case ch of Polite \<Rightarrow> politeIndexRef s | Assertive \<Rightarrow> assertiveIndexRef s)"

text \<open>Slot 0 of a channel is \<open>polite1\<close> or \<open>assertive1\<close>, slot 1 is \<open>polite2\<close> or \<open>assertive2\<close>.\<close>

definition slot :: "LiveAnnouncerPriority \<Rightarrow> nat \<Rightarrow> provider \<Rightarrow> string" where
  "slot ch i s =
     (case ch of
        Polite \<Rightarrow> if i = 0 then polite1 s else polite2 s
      | Assertive \<Rightarrow> if i = 0 then assertive1 s else assertive2 s)"

text \<open>
  The slot the next accepted write of a channel goes to: the test of the source is
  \<^verbatim>\<open>currentIndex === 0\<close>, so every other value of the cursor selects slot 1.
\<close>

definition target :: "LiveAnnouncerPriority \<Rightarrow> provider \<Rightarrow> nat" where
  "target ch s = (if cursor ch s = 0 then 0 else 1)"

text \<open>The other slot of the pair: \<^verbatim>\<open>currentIndex === 0 ? 1 : 0\<close>.\<close>

definition other :: "nat \<Rightarrow> nat" where
  "other i = (if i = 0 then 1 else 0)"

definition lastRef :: "LiveAnnouncerPriority \<Rightarrow> provider \<Rightarrow> AnnouncementState" where
  "lastRef ch s = (case ch of Polite \<Rightarrow> lastPoliteRef s | Assertive \<Rightarrow> lastAssertiveRef s)"

definition slots :: "provider \<Rightarrow> string \<times> string \<times> string \<times> string" where
  "slots s = (polite1 s, polite2 s, assertive1 s, assertive2 s)"

text \<open>A call is accepted when it does not take the early \<open>return\<close>.\<close>

definition accepted :: "provider \<Rightarrow> string \<Rightarrow> LiveAnnouncerOptions \<Rightarrow> bool" where
  "accepted s msg options = (\<not> suppressed (lastRef (channel options) s) msg (id_o options))"

text \<open>At most one of the two slots of channel \<open>ch\<close> holds text.\<close>

definition slot_inv :: "LiveAnnouncerPriority \<Rightarrow> provider \<Rightarrow> bool" where
  "slot_inv ch s = (slot ch 0 s = [] \<or> slot ch 1 s = [])"

text \<open>Every pending timeout is the one whose handle the ref holds, and there is at most one.\<close>

definition timer_inv :: "provider \<Rightarrow> bool" where
  "timer_inv s =
     (timers s = [] \<or> map (\<lambda>(h, due). Some h) (timers s) = [clearTimeoutRef s])"

section \<open>Histories of a provider\<close>

text \<open>
  The four operations of \<open>LiveAnnouncerContextValue\<close> (lines 18 to 23), as a caller
  names them.
\<close>

datatype operation =
    Announce string LiveAnnouncerOptions
  | AnnouncePolite string "string option"
  | AnnounceAssertive string "string option"
  | ClearAnnouncements

text \<open>
  What happens to a provider: an operation is called (with the string \<open>generateId()\<close>
  would return during that call), or the clock advances.
\<close>

datatype event = Call operation string | Advance nat

definition invoke :: "int \<Rightarrow> string \<Rightarrow> operation \<Rightarrow> provider \<Rightarrow> provider" where
  "invoke clearOnUnmountDelay generated opn s =
     (case opn of
        Announce msg options \<Rightarrow> announce clearOnUnmountDelay generated msg options s
      | AnnouncePolite msg i \<Rightarrow> announcePolite clearOnUnmountDelay generated msg i s
      | AnnounceAssertive msg i \<Rightarrow> announceAssertive clearOnUnmountDelay generated msg i s
      | ClearAnnouncements \<Rightarrow> clearAnnouncements s)"

definition step :: "int \<Rightarrow> event \<Rightarrow> provider \<Rightarrow> provider" where
  "step clearOnUnmountDelay ev s =
     (case ev of
        Call opn generated \<Rightarrow> invoke clearOnUnmountDelay generated opn s
      | Advance t \<Rightarrow> advanceTimersByTime t s)"

fun run :: "int \<Rightarrow> event list \<Rightarrow> provider \<Rightarrow> provider" where
  "run clearOnUnmountDelay [] s = s"
| "run clearOnUnmountDelay (ev # evs) s = run clearOnUnmountDelay evs (step clearOnUnmountDelay ev s)"

text \<open>The message and options with which an operation reaches \<open>announce\<close>, if it does.\<close>

definition announcement :: "operation \<Rightarrow> (string \<times> LiveAnnouncerOptions) option" where
  "announcement opn =
     (case opn of
        Announce msg options \<Rightarrow> Some (msg, options)
      | AnnouncePolite msg i \<Rightarrow> Some (msg, \<lparr> priority = Some Polite, id_o = i \<rparr>)
      | AnnounceAssertive msg i \<Rightarrow> Some (msg, \<lparr> priority = Some Assertive, id_o = i \<rparr>)
      | ClearAnnouncements \<Rightarrow> None)"

text \<open>
  The slot an event writes on channel \<open>ch\<close>: the target of the channel when the event is
  an accepted announcement on \<open>ch\<close>, nothing otherwise.
\<close>

definition written :: "LiveAnnouncerPriority \<Rightarrow> event \<Rightarrow> provider \<Rightarrow> nat list" where
  "written ch ev s =
     (case ev of
        Advance t \<Rightarrow> []
      | Call opn generated \<Rightarrow>
          (case announcement opn of
             None \<Rightarrow> []
           | Some (msg, options) \<Rightarrow>
               if channel options = ch \<and> accepted s msg options then [target ch s] else []))"

text \<open>The slots of channel \<open>ch\<close> written during a history, in order.\<close>

fun writes :: "int \<Rightarrow> LiveAnnouncerPriority \<Rightarrow> event list \<Rightarrow> provider \<Rightarrow> nat list" where
  "writes clearOnUnmountDelay ch [] s = []"
| "writes clearOnUnmountDelay ch (ev # evs) s =
     written ch ev s @ writes clearOnUnmountDelay ch evs (step clearOnUnmountDelay ev s)"

section \<open>The hook\<close>

text \<open>
  What a call can raise: the \<open>Error\<close> the hook throws (line 231), and the errors JavaScript
  itself raises in the expressions the operations evaluate, a \<open>TypeError\<close> when a property
  is read from \<open>null\<close> or \<open>undefined\<close> (destructuring included) and a \<open>RangeError\<close> when
  \<open>toString\<close> gets a radix outside 2 to 36.
\<close>

datatype error = OutsideProvider | TypeError | RangeError

text \<open>
  \<^verbatim>\<open>createContext<LiveAnnouncerContextValue | null>(null)\<close> (lines 42 to 44): \<open>useContext\<close>
  gives the value of the nearest enclosing provider, and the default \<open>null\<close> when there is
  none. The list holds the enclosing providers, the nearest first.
\<close>

definition useContext :: "provider list \<Rightarrow> provider option" where
  "useContext enclosing = (case enclosing of [] \<Rightarrow> None | s # outer \<Rightarrow> Some s)"

text \<open>
  Lines 227 to 237. The context holds \<open>null\<close> outside a provider; inside one it holds the
  provider's four operations, which the model represents by the provider they act on.
\<close>

definition useLiveAnnouncer :: "provider option \<Rightarrow> error + provider" where
  "useLiveAnnouncer context = (case context of None \<Rightarrow> Inl OutsideProvider | Some s \<Rightarrow> Inr s)"

text \<open>Reading properties of a value that may be \<open>null\<close> or \<open>undefined\<close> (here \<open>None\<close>).\<close>

definition destructure :: "'a option \<Rightarrow> error + 'a" where
  "destructure v = (case v of None \<Rightarrow> Inl TypeError | Some x \<Rightarrow> Inr x)"

text \<open>
  \<^verbatim>\<open>Number.prototype.toString(radix)\<close>; \<open>rendering\<close> is the text of the number in that
  radix, which the host computes.
\<close>

definition numberToString :: "nat \<Rightarrow> string \<Rightarrow> error + string" where
  "numberToString radix rendering =
     (if 2 \<le> radix \<and> radix \<le> 36 then Inr rendering else Inl RangeError)"

text \<open>
  Lines 119 to 121, \<^verbatim>\<open>`${Date.now()}-${Math.random().toString(36).slice(2, 11)}`\<close>:
  \<open>dateNow\<close> is the text of \<open>Date.now()\<close> and \<open>randomText\<close> the text of \<open>Math.random()\<close> in
  radix 36; \<open>slice(2, 11)\<close> keeps the characters at positions 2 to 10.
\<close>

definition generateId :: "string \<Rightarrow> string \<Rightarrow> error + string" where
  "generateId dateNow randomText =
     (case numberToString 36 randomText of
        Inl e \<Rightarrow> Inl e
      | Inr r \<Rightarrow> Inr (dateNow @ ''-'' @ take 9 (drop 2 r)))"

text \<open>
  A call of \<open>announce\<close> as JavaScript evaluates it (lines 133 to 135): the argument
  \<open>options\<close> may be left out (\<open>None\<close>) and then takes the default \<open>{}\<close>; it is destructured;
  \<open>generateId()\<close> is evaluated only when \<open>id\<close> is falsy. The rest of the body is
  \<open>announce\<close> above, whose statements (comparisons, assignments to refs, state setters,
  \<open>clearTimeout\<close> and \<open>setTimeout\<close>) raise nothing.
\<close>

definition announceCall ::
  "int \<Rightarrow> string \<Rightarrow> string \<Rightarrow> string \<Rightarrow> LiveAnnouncerOptions option \<Rightarrow> provider \<Rightarrow> error + provider" where
  "announceCall clearOnUnmountDelay dateNow randomText msg optionsArg s =
     (case destructure (case optionsArg of
                          None \<Rightarrow> Some \<lparr> priority = None, id_o = None \<rparr>
                        | Some given \<Rightarrow> Some given) of
        Inl e \<Rightarrow> Inl e
      | Inr options \<Rightarrow>
          (if truthy (id_o options)
           then Inr (announce clearOnUnmountDelay [] msg options s)
           else (case generateId dateNow randomText of
                   Inl e \<Rightarrow> Inl e
                 | Inr generated \<Rightarrow> Inr (announce clearOnUnmountDelay generated msg options s))))"

text \<open>
  The calls a consumer can make on what the hook returns, with the arguments their
  types allow: \<^verbatim>\<open>announce(message, options?)\<close>, \<^verbatim>\<open>announcePolite(message, id?)\<close>,
  \<^verbatim>\<open>announceAssertive(message, id?)\<close> and \<^verbatim>\<open>clearAnnouncements()\<close>.
\<close>

datatype hookCall =
    CallAnnounce string "LiveAnnouncerOptions option"
  | CallAnnouncePolite string "string option"
  | CallAnnounceAssertive string "string option"
  | CallClearAnnouncements

text \<open>
  A consumer inside the given enclosing providers obtains the operations from the hook
  and calls one of them (for instance \<^verbatim>\<open>const { announcePolite } = useLiveAnnouncer();\<close>
  and then \<^verbatim>\<open>announcePolite(message, id)\<close>); lines 185 to 197 for the two wrappers.
\<close>

definition invokeFromHook ::
  "int \<Rightarrow> string \<Rightarrow> string \<Rightarrow> hookCall \<Rightarrow> provider list \<Rightarrow> error + provider" where
  "invokeFromHook clearOnUnmountDelay dateNow randomText c enclosing =
     (case useLiveAnnouncer (useContext enclosing) of
        Inl e \<Rightarrow> Inl e
      | Inr s \<Rightarrow>
          (case c of
             CallAnnounce msg optionsArg \<Rightarrow>
               announceCall clearOnUnmountDelay dateNow randomText msg optionsArg s
           | CallAnnouncePolite msg i \<Rightarrow>
               announceCall clearOnUnmountDelay dateNow randomText msg
                 (Some \<lparr> priority = Some Polite, id_o = i \<rparr>) s
           | CallAnnounceAssertive msg i \<Rightarrow>
               announceCall clearOnUnmountDelay dateNow randomText msg
                 (Some \<lparr> priority = Some Assertive, id_o = i \<rparr>) s
           | CallClearAnnouncements \<Rightarrow> Inr (clearAnnouncements s)))"

text \<open>The same call as an operation on the provider, with the options it ends up with.\<close>

definition operationOf :: "hookCall \<Rightarrow> operation" where
  "operationOf c =
     (case c of
        CallAnnounce msg optionsArg \<Rightarrow>
          Announce msg (case optionsArg of
                          None \<Rightarrow> \<lparr> priority = None, id_o = None \<rparr>
                        | Some given \<Rightarrow> given)
      | CallAnnouncePolite msg i \<Rightarrow> AnnouncePolite msg i
      | CallAnnounceAssertive msg i \<Rightarrow> AnnounceAssertive msg i
      | CallClearAnnouncements \<Rightarrow> ClearAnnouncements)"

section \<open>\<open>LiveAnnouncerMessage\<close>\<close>

text \<open>Lines 239 to 244; the fields carry the suffix \<open>_p\<close>.\<close>

record LiveAnnouncerMessageProps =
  message_p :: string
  priority_p :: "LiveAnnouncerPriority option"
  id_p :: "string option"
  clearOnUnmount :: "bool option"

text \<open>
  One mounted \<open>LiveAnnouncerMessage\<close>: its two refs, and the dependency array of its
  first effect at the last commit (\<open>None\<close> before the first commit). The dependencies are
  \<^verbatim>\<open>[message, priority, id, announce]\<close>; \<open>announce\<close> is a \<open>useCallback\<close> whose only
  changing dependency is \<open>clearOnUnmountDelay\<close>, which stands for it here.
\<close>

record messageInstance =
  previousMessageRef :: string
  previousIdRef :: "string option"
  lastDeps :: "(string \<times> LiveAnnouncerPriority \<times> string option \<times> int) option"

definition mountedMessage :: messageInstance where
  "mountedMessage = \<lparr> previousMessageRef = [], previousIdRef = None, lastDeps = None \<rparr>"

text \<open>
  The body of the effect (lines 257 to 261): the call of \<open>announce\<close> it makes, if any, and
  the refs afterwards.
\<close>

definition messageEffect ::
  "LiveAnnouncerMessageProps \<Rightarrow> messageInstance \<Rightarrow> (string \<times> LiveAnnouncerOptions) option \<times> messageInstance" where
  "messageEffect p inst =
     (if message_p p \<noteq> [] \<and>
         (message_p p \<noteq> previousMessageRef inst \<or> id_p p \<noteq> previousIdRef inst)
      then (Some (message_p p,
                  \<lparr> priority = Some (case priority_p p of None \<Rightarrow> Polite | Some c \<Rightarrow> c),
                    id_o = id_p p \<rparr>),
            inst\<lparr> previousMessageRef := message_p p, previousIdRef := id_p p \<rparr>)
      else (None, inst))"

definition effectDeps ::
  "int \<Rightarrow> LiveAnnouncerMessageProps \<Rightarrow> string \<times> LiveAnnouncerPriority \<times> string option \<times> int" where
  "effectDeps clearOnUnmountDelay p =
     (message_p p, (case priority_p p of None \<Rightarrow> Polite | Some c \<Rightarrow> c), id_p p, clearOnUnmountDelay)"

text \<open>One commit of the component: the effect runs when its dependencies changed.\<close>

definition commitMessage ::
  "int \<Rightarrow> LiveAnnouncerMessageProps \<Rightarrow> messageInstance \<Rightarrow> (string \<times> LiveAnnouncerOptions) option \<times> messageInstance" where
  "commitMessage clearOnUnmountDelay p inst =
     (if lastDeps inst = Some (effectDeps clearOnUnmountDelay p) then (None, inst)
      else (case messageEffect p inst of
              (c, inst') \<Rightarrow> (c, inst'\<lparr> lastDeps := Some (effectDeps clearOnUnmountDelay p) \<rparr>)))"

text \<open>The instance after a sequence of commits, each with its delay and props.\<close>

fun commits :: "(int \<times> LiveAnnouncerMessageProps) list \<Rightarrow> messageInstance \<Rightarrow> messageInstance" where
  "commits [] inst = inst"
| "commits ((d, p) # rest) inst = commits rest (snd (commitMessage d p inst))"

section \<open>Example states\<close>

text \<open>A call without options: \<^verbatim>\<open>options: LiveAnnouncerOptions = {}\<close>.\<close>

definition noOptions :: LiveAnnouncerOptions where
  "noOptions = \<lparr> priority = None, id_o = None \<rparr>"

text \<open>The provider with the default delay after \<^verbatim>\<open>announcePolite("Saved")\<close>.\<close>

definition savedProvider :: provider where
  "savedProvider = announcePolite 7000 ''1700000000000-k3j9x0a1b'' ''Saved'' None initialProvider"

text \<open>Options that carry the empty string as identifier: \<^verbatim>\<open>{ id: "" }\<close>.\<close>

definition emptyIdOptions :: LiveAnnouncerOptions where
  "emptyIdOptions = \<lparr> priority = None, id_o = Some [] \<rparr>"

text \<open>
  Three calls in a row, \<^verbatim>\<open>announcePolite("Msg 1", "1")\<close>, \<^verbatim>\<open>announcePolite("Msg 2", "2")\<close>,
  \<^verbatim>\<open>announcePolite("Msg 3", "3")\<close>.
\<close>

definition rapidCalls :: "string \<Rightarrow> string \<Rightarrow> string \<Rightarrow> event list" where
  "rapidCalls g1 g2 g3 =
     [Call (AnnouncePolite ''Msg 1'' (Some ''1'')) g1,
      Call (AnnouncePolite ''Msg 2'' (Some ''2'')) g2,
      Call (AnnouncePolite ''Msg 3'' (Some ''3'')) g3]"

text \<open>An announcement, then 400 milliseconds pass.\<close>

definition firstThenWait :: "event list" where
  "firstThenWait = [Call (Announce ''First'' \<lparr> priority = None, id_o = None \<rparr>) ''a'', Advance 400]"

text \<open>Options that carry an identifier: \<^verbatim>\<open>{ id: "save-1" }\<close>.\<close>

definition taggedOptions :: LiveAnnouncerOptions where
  "taggedOptions = \<lparr> priority = None, id_o = Some ''save-1'' \<rparr>"

text \<open>\<^verbatim>\<open><LiveAnnouncerMessage message="First" />\<close> and the same with \<^verbatim>\<open>"Second"\<close>.\<close>

definition firstProps :: LiveAnnouncerMessageProps where
  "firstProps = \<lparr> message_p = ''First'', priority_p = None, id_p = None, clearOnUnmount = None \<rparr>"

definition secondProps :: LiveAnnouncerMessageProps where
  "secondProps = \<lparr> message_p = ''Second'', priority_p = None, id_p = None, clearOnUnmount = None \<rparr>"

text \<open>
  Whenever the effect of a \<open>LiveAnnouncerMessage\<close> last ran with a non-empty message, the
  refs hold that message and identifier.
\<close>

definition message_inv :: "messageInstance \<Rightarrow> bool" where
  "message_inv inst =
     (case lastDeps inst of
        None \<Rightarrow> True
      | Some (m, pr, i, d) \<Rightarrow> m \<noteq> [] \<longrightarrow> previousMessageRef inst = m \<and> previousIdRef inst = i)"

section \<open>Unfolding the model\<close>

lemmas model_defs =
  initialProvider_def hostDelay_def setTimeout_def clearTimeout_def clearAnnouncements_def truthy_def
  suppressed_def writeAssertive_def writePolite_def armTimer_def announcementId_def announce_def
  announcePolite_def announceAssertive_def advanceTimersByTime_def channel_def cursor_def
  slot_def target_def other_def lastRef_def slots_def accepted_def invoke_def step_def
  announcement_def written_def noOptions_def savedProvider_def emptyIdOptions_def
  rapidCalls_def firstThenWait_def taggedOptions_def Let_def

section \<open>Frame lemmas\<close>

lemma fire_Suc_clear: "fire (Suc n) s = clearAnnouncements (fire n s)"
  by (induction n arbitrary: s) (simp_all add: clearAnnouncements_def)

lemma armTimer_fields [simp]:
  "polite1 (armTimer d s) = polite1 s"
  "polite2 (armTimer d s) = polite2 s"
  "assertive1 (armTimer d s) = assertive1 s"
  "assertive2 (armTimer d s) = assertive2 s"
  "politeIndexRef (armTimer d s) = politeIndexRef s"
  "assertiveIndexRef (armTimer d s) = assertiveIndexRef s"
  "lastPoliteRef (armTimer d s) = lastPoliteRef s"
  "lastAssertiveRef (armTimer d s) = lastAssertiveRef s"
  "now (armTimer d s) = now s"
  by (simp_all add: armTimer_def setTimeout_def clearTimeout_def split: option.split)

lemma fire_fields [simp]:
  "politeIndexRef (fire n s) = politeIndexRef s"
  "assertiveIndexRef (fire n s) = assertiveIndexRef s"
  "clearTimeoutRef (fire n s) = clearTimeoutRef s"
  "now (fire n s) = now s"
  "timers (fire n s) = timers s"
  "nextHandle (fire n s) = nextHandle s"
  by (induction n arbitrary: s) (simp_all add: clearAnnouncements_def)

lemma fire_Suc_fields:
  "polite1 (fire (Suc n) s) = []"
  "polite2 (fire (Suc n) s) = []"
  "assertive1 (fire (Suc n) s) = []"
  "assertive2 (fire (Suc n) s) = []"
  "lastPoliteRef (fire (Suc n) s) = \<lparr> message = [], id_s = [] \<rparr>"
  "lastAssertiveRef (fire (Suc n) s) = \<lparr> message = [], id_s = [] \<rparr>"
  unfolding fire_Suc_clear by (simp_all add: clearAnnouncements_def)

section \<open>At most one slot of a channel holds text\<close>

lemma slot_inv_clear: "slot_inv ch (clearAnnouncements s)"
  by (cases ch) (simp_all add: slot_inv_def slot_def clearAnnouncements_def)

lemma slot_inv_fire: "slot_inv ch s \<Longrightarrow> slot_inv ch (fire n s)"
  by (induction n arbitrary: s) (simp_all add: slot_inv_clear)

lemma slot_inv_advance: "slot_inv ch s \<Longrightarrow> slot_inv ch (advanceTimersByTime t s)"
  unfolding advanceTimersByTime_def Let_def
  by (rule slot_inv_fire) (cases ch; simp add: slot_inv_def slot_def)

lemma slot_inv_announce: "slot_inv ch s \<Longrightarrow> slot_inv ch (announce d g m opts s)"
  by (cases ch)
     (auto simp: slot_inv_def slot_def announce_def Let_def writePolite_def writeAssertive_def)

lemma slot_inv_invoke: "slot_inv ch s \<Longrightarrow> slot_inv ch (invoke d g opn s)"
  by (cases opn)
     (simp_all add: invoke_def announcePolite_def announceAssertive_def
        slot_inv_announce slot_inv_clear)

lemma slot_inv_step: "slot_inv ch s \<Longrightarrow> slot_inv ch (step d ev s)"
  by (cases ev) (simp_all add: step_def slot_inv_invoke slot_inv_advance)

lemma slot_inv_run: "slot_inv ch s \<Longrightarrow> slot_inv ch (run d evs s)"
  by (induction evs arbitrary: s) (simp_all add: slot_inv_step)

lemma slot_inv_initial: "slot_inv ch initialProvider"
  by (cases ch) (simp_all add: slot_inv_def slot_def initialProvider_def)

lemma announce_writes:
  "accepted s m opts \<Longrightarrow>
     slot (channel opts) (target (channel opts) s) (announce d g m opts s) = m \<and>
     slot (channel opts) (other (target (channel opts) s)) (announce d g m opts s) = []"
  by (cases "channel opts")
     (auto simp: accepted_def channel_def lastRef_def target_def cursor_def slot_def other_def
        announce_def Let_def writePolite_def writeAssertive_def)

text \<open>
  C1. In every state a provider reaches from its initial state, whatever the history of
  calls and clock advances, each channel has at most one slot holding text. Each
  operation preserves this, channel by channel: \<open>announce\<close>, \<open>clearAnnouncements\<close> and
  the clock advancing (which fires the auto-clear timeout when it is due). An accepted
  \<open>announce\<close> puts the message into the slot at the cursor of its channel and leaves the
  other slot of that channel empty.
\<close>

theorem slot_invariant:
  "slot_inv ch initialProvider \<and>
   slot_inv ch (run d evs initialProvider) \<and>
   (slot_inv ch s \<longrightarrow>
      slot_inv ch (announce d g m opts s) \<and>
      slot_inv ch (clearAnnouncements s) \<and>
      slot_inv ch (advanceTimersByTime t s)) \<and>
   (accepted s m opts \<longrightarrow>
      slot (channel opts) (target (channel opts) s) (announce d g m opts s) = m \<and>
      slot (channel opts) (other (target (channel opts) s)) (announce d g m opts s) = [])"
  by (simp add: slot_inv_initial slot_inv_run slot_inv_announce slot_inv_clear
        slot_inv_advance announce_writes)

theorem slot_invariant_witness:
  "slot_inv Polite savedProvider \<and>
   accepted savedProvider ''Done'' noOptions \<and>
   slot_inv Polite (run 7000 [Call (AnnouncePolite ''Saved'' None) ''a'', Advance 7000] initialProvider) \<and>
   slot_inv Polite (announce 7000 ''b'' ''Done'' noOptions savedProvider) \<and>
   slot_inv Polite (clearAnnouncements savedProvider) \<and>
   slot_inv Polite (advanceTimersByTime 7000 savedProvider) \<and>
   slot Polite 1 (announce 7000 ''b'' ''Done'' noOptions savedProvider) = ''Done'' \<and>
   slot Polite 0 (announce 7000 ''b'' ''Done'' noOptions savedProvider) = []"
proof -
  have inv: "slot_inv Polite savedProvider"
    by (simp add: slot_inv_def model_defs)
  have acc: "accepted savedProvider ''Done'' noOptions"
    by (simp add: model_defs)
  have tgt: "target (channel noOptions) savedProvider = 1" "channel noOptions = Polite"
    by (simp_all add: model_defs)
  show ?thesis
    using inv acc tgt
      slot_invariant [where ch = Polite and d = 7000 and s = savedProvider and g = "''b''"
        and m = "''Done''" and opts = noOptions and t = 7000
        and evs = "[Call (AnnouncePolite ''Saved'' None) ''a'', Advance 7000]"]
    by (simp add: other_def)
qed

section \<open>Clearing\<close>

text \<open>
  C6. From every state, \<open>clearAnnouncements\<close> leaves all four slots empty and both
  last-announcement refs at the empty message and empty identifier, and it changes
  nothing of the timer: the handle in the ref, the host's pending timeouts, the next
  handle and the clock are as before.
\<close>

theorem clear_resets:
  "slots (clearAnnouncements s) = ([], [], [], []) \<and>
   lastPoliteRef (clearAnnouncements s) = \<lparr> message = [], id_s = [] \<rparr> \<and>
   lastAssertiveRef (clearAnnouncements s) = \<lparr> message = [], id_s = [] \<rparr> \<and>
   clearTimeoutRef (clearAnnouncements s) = clearTimeoutRef s \<and>
   timers (clearAnnouncements s) = timers s \<and>
   nextHandle (clearAnnouncements s) = nextHandle s \<and>
   now (clearAnnouncements s) = now s"
  by (simp add: slots_def clearAnnouncements_def)

section \<open>Rotation\<close>

lemma cursor_clear: "cursor ch (clearAnnouncements s) = cursor ch s"
  by (cases ch) (simp_all add: cursor_def clearAnnouncements_def)

lemma cursor_advance: "cursor ch (advanceTimersByTime t s) = cursor ch s"
  by (cases ch) (simp_all add: cursor_def advanceTimersByTime_def Let_def)

lemma announce_suppressed:
  "\<not> accepted s m opts \<Longrightarrow> announce d g m opts s = s"
  by (cases "channel opts")
     (auto simp: accepted_def channel_def lastRef_def announce_def Let_def
        split: option.splits)

lemma cursor_announce_other:
  "channel opts \<noteq> ch \<Longrightarrow> cursor ch (announce d g m opts s) = cursor ch s"
  by (cases ch; cases "channel opts")
     (auto simp: channel_def cursor_def announce_def Let_def writePolite_def writeAssertive_def
        split: option.splits)

lemma target_announce_accepted:
  "accepted s m opts \<Longrightarrow>
     target (channel opts) (announce d g m opts s) = other (target (channel opts) s)"
  by (cases "channel opts")
     (auto simp: accepted_def channel_def lastRef_def target_def cursor_def other_def
        announce_def Let_def writePolite_def writeAssertive_def)

lemma step_announcement:
  "announcement opn = Some (m, opts) \<Longrightarrow> step d (Call opn g) s = announce d g m opts s"
  by (cases opn) (auto simp: announcement_def step_def invoke_def announcePolite_def
      announceAssertive_def)

lemma step_clear:
  "announcement opn = None \<Longrightarrow> step d (Call opn g) s = clearAnnouncements s"
  by (cases opn) (auto simp: announcement_def step_def invoke_def)

lemma written_Nil_cursor: "written ch ev s = [] \<Longrightarrow> cursor ch (step d ev s) = cursor ch s"
proof (cases ev)
  case (Advance t)
  then show ?thesis by (simp add: step_def cursor_advance)
next
  case (Call opn g)
  assume w: "written ch ev s = []"
  show ?thesis
  proof (cases "announcement opn")
    case None
    with Call show ?thesis by (simp add: step_clear cursor_clear)
  next
    case (Some a)
    obtain m opts where a: "a = (m, opts)" by (cases a)
    from w Call Some a have "channel opts \<noteq> ch \<or> \<not> accepted s m opts"
      by (auto simp: written_def split: if_splits)
    then show ?thesis
      using Call Some a
      by (auto simp: step_announcement cursor_announce_other announce_suppressed)
  qed
qed

lemma written_Cons:
  "written ch ev s \<noteq> [] \<Longrightarrow>
     written ch ev s = [target ch s] \<and> target ch (step d ev s) = other (target ch s)"
proof (cases ev)
  case (Advance t)
  assume "written ch ev s \<noteq> []"
  with Advance show ?thesis by (simp add: written_def)
next
  case (Call opn g)
  assume w: "written ch ev s \<noteq> []"
  show ?thesis
  proof (cases "announcement opn")
    case None
    with Call w show ?thesis by (simp add: written_def)
  next
    case (Some a)
    obtain m opts where a: "a = (m, opts)" by (cases a)
    from w Call Some a have c: "channel opts = ch" and acc: "accepted s m opts"
      by (auto simp: written_def split: if_splits)
    from target_announce_accepted [OF acc, of d g] c
    show ?thesis using Call Some a acc by (simp add: step_announcement written_def)
  qed
qed

lemma writes_Nil_cursor: "writes d ch evs s = [] \<Longrightarrow> cursor ch (run d evs s) = cursor ch s"
  by (induction evs arbitrary: s) (simp_all add: written_Nil_cursor)

lemma writes_Nil_target: "writes d ch evs s = [] \<Longrightarrow> target ch (run d evs s) = target ch s"
  by (simp add: target_def writes_Nil_cursor)

lemma writes_hd: "writes d ch evs s \<noteq> [] \<Longrightarrow> hd (writes d ch evs s) = target ch s"
proof (induction evs arbitrary: s)
  case Nil
  then show ?case by simp
next
  case (Cons ev evs)
  show ?case
  proof (cases "written ch ev s = []")
    case True
    with Cons.prems have "writes d ch evs (step d ev s) \<noteq> []" by simp
    from Cons.IH [OF this] True show ?thesis
      by (simp add: target_def written_Nil_cursor)
  next
    case False
    from written_Cons [OF False] show ?thesis by simp
  qed
qed

lemma other_neq: "other (target ch s) \<noteq> target ch s"
  by (simp add: other_def target_def)

lemma writes_distinct_adj: "distinct_adj (writes d ch evs s)"
proof (induction evs arbitrary: s)
  case Nil
  show ?case by simp
next
  case (Cons ev evs)
  show ?case
  proof (cases "written ch ev s = []")
    case True
    then show ?thesis using Cons.IH by simp
  next
    case False
    from written_Cons [OF False, of d]
    have w: "written ch ev s = [target ch s]"
      and t: "target ch (step d ev s) = other (target ch s)" by simp_all
    show ?thesis
    proof (cases "writes d ch evs (step d ev s) = []")
      case True
      with w show ?thesis by simp
    next
      case False
      from writes_hd [OF False] t other_neq [of ch s]
      have "target ch s \<noteq> hd (writes d ch evs (step d ev s))" by simp
      with w Cons.IH [of "step d ev s"] show ?thesis
        by (simp add: distinct_adj_Cons)
    qed
  qed
qed

text \<open>
  C3. In every history from every state, the slots written on a channel by its accepted
  announcements never repeat twice in a row. In particular, when an accepted announcement
  on a channel is followed by events that write nothing on that channel (announcements
  on the other channel, suppressed calls, clears, clock advances) and then by another
  accepted announcement on the channel, the second goes to the slot the first did not
  go to, and each slot holds its message right after its write.
\<close>

theorem rotation_alternates:
  "distinct_adj (writes d ch evs s) \<and>
   (accepted s m opts \<and> channel opts = ch \<and>
    writes d ch evs (announce d g m opts s) = [] \<and>
    accepted (run d evs (announce d g m opts s)) m' opts' \<and> channel opts' = ch \<longrightarrow>
      target ch (run d evs (announce d g m opts s)) \<noteq> target ch s \<and>
      slot ch (target ch s) (announce d g m opts s) = m \<and>
      slot ch (target ch (run d evs (announce d g m opts s)))
        (announce d g' m' opts' (run d evs (announce d g m opts s))) = m')"
proof (intro conjI impI)
  show "distinct_adj (writes d ch evs s)" by (rule writes_distinct_adj)
next
  assume h: "accepted s m opts \<and> channel opts = ch \<and>
    writes d ch evs (announce d g m opts s) = [] \<and>
    accepted (run d evs (announce d g m opts s)) m' opts' \<and> channel opts' = ch"
  then have "target ch (run d evs (announce d g m opts s)) = target ch (announce d g m opts s)"
    by (simp add: writes_Nil_target)
  also have "\<dots> = other (target ch s)"
    using h target_announce_accepted [of s m opts d g] by auto
  finally show "target ch (run d evs (announce d g m opts s)) \<noteq> target ch s"
    by (simp add: other_neq)
next
  assume h: "accepted s m opts \<and> channel opts = ch \<and>
    writes d ch evs (announce d g m opts s) = [] \<and>
    accepted (run d evs (announce d g m opts s)) m' opts' \<and> channel opts' = ch"
  then show "slot ch (target ch s) (announce d g m opts s) = m"
    using announce_writes [of s m opts d g] by auto
next
  assume h: "accepted s m opts \<and> channel opts = ch \<and>
    writes d ch evs (announce d g m opts s) = [] \<and>
    accepted (run d evs (announce d g m opts s)) m' opts' \<and> channel opts' = ch"
  then show "slot ch (target ch (run d evs (announce d g m opts s)))
        (announce d g' m' opts' (run d evs (announce d g m opts s))) = m'"
    using announce_writes [of "run d evs (announce d g m opts s)" m' opts' d g'] by auto
qed

theorem rotation_alternates_witness:
  "accepted initialProvider ''Saved'' noOptions \<and> channel noOptions = Polite \<and>
   writes 7000 Polite [Call (AnnounceAssertive ''Error'' None) ''a'']
     (announce 7000 ''b'' ''Saved'' noOptions initialProvider) = [] \<and>
   accepted (run 7000 [Call (AnnounceAssertive ''Error'' None) ''a'']
     (announce 7000 ''b'' ''Saved'' noOptions initialProvider)) ''Saved'' noOptions \<and>
   target Polite initialProvider = 0 \<and>
   target Polite (run 7000 [Call (AnnounceAssertive ''Error'' None) ''a'']
     (announce 7000 ''b'' ''Saved'' noOptions initialProvider)) \<noteq> 0 \<and>
   distinct_adj (writes 7000 Polite
     [Call (Announce ''Saved'' noOptions) ''b'', Call (AnnounceAssertive ''Error'' None) ''a'',
      Call (Announce ''Saved'' noOptions) ''c''] initialProvider)"
proof -
  have h: "accepted initialProvider ''Saved'' noOptions \<and> channel noOptions = Polite \<and>
    writes 7000 Polite [Call (AnnounceAssertive ''Error'' None) ''a'']
      (announce 7000 ''b'' ''Saved'' noOptions initialProvider) = [] \<and>
    accepted (run 7000 [Call (AnnounceAssertive ''Error'' None) ''a'']
      (announce 7000 ''b'' ''Saved'' noOptions initialProvider)) ''Saved'' noOptions"
    by (simp add: model_defs)
  have t0: "target Polite initialProvider = 0"
    by (simp add: model_defs)
  from h t0
    rotation_alternates [where d = 7000 and ch = Polite and s = initialProvider
      and m = "''Saved''" and opts = noOptions and g = "''b''" and m' = "''Saved''"
      and opts' = noOptions
      and evs = "[Call (AnnounceAssertive ''Error'' None) ''a'']"]
    rotation_alternates [where d = 7000 and ch = Polite and s = initialProvider
      and evs = "[Call (Announce ''Saved'' noOptions) ''b'',
                  Call (AnnounceAssertive ''Error'' None) ''a'',
                  Call (Announce ''Saved'' noOptions) ''c'']"]
  show ?thesis by simp
qed

section \<open>Clearing keeps the cursors\<close>

lemma accepted_after_clear: "accepted (clearAnnouncements s) m opts"
  by (cases "channel opts")
     (auto simp: accepted_def lastRef_def suppressed_def truthy_def clearAnnouncements_def
        split: option.splits)

lemma target_clear: "target ch (clearAnnouncements s) = target ch s"
  by (simp add: target_def cursor_clear)

text \<open>
  C10. \<open>clearAnnouncements\<close> leaves both index refs as they are. From every state, every
  announcement right after a clear is accepted and writes the slot the cursor of its
  channel pointed to before the clear; the same holds for the first accepted
  announcement on a channel after a clear and any events that write nothing on that
  channel. That slot need not be slot 0: after \<open>announcePolite("Saved")\<close> and a clear, the
  next polite announcement goes to slot 1.
\<close>

theorem clear_keeps_cursor:
  "politeIndexRef (clearAnnouncements s) = politeIndexRef s \<and>
   assertiveIndexRef (clearAnnouncements s) = assertiveIndexRef s \<and>
   accepted (clearAnnouncements s) m opts \<and>
   slot (channel opts) (target (channel opts) s)
     (announce d g m opts (clearAnnouncements s)) = m \<and>
   (writes d ch evs (clearAnnouncements s) = [] \<and> channel opts = ch \<and>
    accepted (run d evs (clearAnnouncements s)) m opts \<longrightarrow>
      slot ch (target ch s) (announce d g m opts (run d evs (clearAnnouncements s))) = m) \<and>
   target Polite savedProvider = 1 \<and>
   slot Polite 1 (announce 7000 g ''Saved again'' noOptions (clearAnnouncements savedProvider))
     = ''Saved again''"
proof (intro conjI impI)
  show "politeIndexRef (clearAnnouncements s) = politeIndexRef s"
    by (simp add: clearAnnouncements_def)
  show "assertiveIndexRef (clearAnnouncements s) = assertiveIndexRef s"
    by (simp add: clearAnnouncements_def)
  show "accepted (clearAnnouncements s) m opts" by (rule accepted_after_clear)
  show "slot (channel opts) (target (channel opts) s)
     (announce d g m opts (clearAnnouncements s)) = m"
    using announce_writes [of "clearAnnouncements s" m opts d g]
    by (simp add: target_clear accepted_after_clear)
  show "target Polite savedProvider = 1" by (simp add: model_defs)
  show "slot Polite 1 (announce 7000 g ''Saved again'' noOptions (clearAnnouncements savedProvider))
     = ''Saved again''" by (simp add: model_defs)
next
  assume h: "writes d ch evs (clearAnnouncements s) = [] \<and> channel opts = ch \<and>
    accepted (run d evs (clearAnnouncements s)) m opts"
  then have "target ch (run d evs (clearAnnouncements s)) = target ch s"
    by (simp add: writes_Nil_target target_clear)
  then show "slot ch (target ch s) (announce d g m opts (run d evs (clearAnnouncements s))) = m"
    using h announce_writes [of "run d evs (clearAnnouncements s)" m opts d g] by auto
qed

theorem clear_keeps_cursor_witness:
  "writes 7000 Polite [Call (AnnounceAssertive ''Error'' None) ''a'']
     (clearAnnouncements savedProvider) = [] \<and>
   channel noOptions = Polite \<and>
   accepted (run 7000 [Call (AnnounceAssertive ''Error'' None) ''a'']
     (clearAnnouncements savedProvider)) ''Again'' noOptions \<and>
   target Polite savedProvider = 1 \<and>
   slot Polite 1 (announce 7000 ''b'' ''Again'' noOptions
     (run 7000 [Call (AnnounceAssertive ''Error'' None) ''a'']
        (clearAnnouncements savedProvider))) = ''Again''"
proof -
  have h: "writes 7000 Polite [Call (AnnounceAssertive ''Error'' None) ''a'']
      (clearAnnouncements savedProvider) = [] \<and>
    channel noOptions = Polite \<and>
    accepted (run 7000 [Call (AnnounceAssertive ''Error'' None) ''a'']
      (clearAnnouncements savedProvider)) ''Again'' noOptions"
    by (simp add: model_defs)
  have t1: "target Polite savedProvider = 1"
    by (simp add: model_defs)
  from h
    clear_keeps_cursor [where d = 7000 and ch = Polite and s = savedProvider
      and m = "''Again''" and opts = noOptions and g = "''b''"
      and evs = "[Call (AnnounceAssertive ''Error'' None) ''a'']"]
  have "slot Polite (target Polite savedProvider) (announce 7000 ''b'' ''Again'' noOptions
     (run 7000 [Call (AnnounceAssertive ''Error'' None) ''a'']
        (clearAnnouncements savedProvider))) = ''Again''"
    by blast
  with h t1 show ?thesis by simp
qed

section \<open>What an accepted announcement leaves in the slots\<close>

text \<open>
  Against C4 as written: the call \<^verbatim>\<open>announce("")\<close> on a new provider is accepted, and
  afterwards both polite slots are empty, so no slot of the channel holds text.
\<close>

theorem accepted_announce_slots_counterexample:
  "accepted initialProvider [] noOptions \<and>
   slot Polite 0 (announce 0 ''a'' [] noOptions initialProvider) = [] \<and>
   slot Polite 1 (announce 0 ''a'' [] noOptions initialProvider) = []"
  by (simp add: model_defs)

text \<open>
  C4, amended. After every accepted \<open>announce\<close>, the slot of its channel at the cursor the
  channel had before the call holds the announced text and the other slot of the channel
  is empty. So when the text is not empty, exactly one of the two slots holds text, and
  it is the announced text; when the text is empty, both slots are empty.
\<close>

theorem accepted_announce_slots:
  "accepted s m opts \<longrightarrow>
     slot (channel opts) (target (channel opts) s) (announce d g m opts s) = m \<and>
     slot (channel opts) (other (target (channel opts) s)) (announce d g m opts s) = [] \<and>
     (m \<noteq> [] \<longrightarrow>
        (slot (channel opts) 0 (announce d g m opts s) \<noteq> []) \<noteq>
        (slot (channel opts) 1 (announce d g m opts s) \<noteq> [])) \<and>
     (m = [] \<longrightarrow>
        slot (channel opts) 0 (announce d g m opts s) = [] \<and>
        slot (channel opts) 1 (announce d g m opts s) = [])"
proof
  assume acc: "accepted s m opts"
  let ?c = "channel opts" and ?s' = "announce d g m opts s"
  from announce_writes [OF acc, of d g]
  have w: "slot ?c (target ?c s) ?s' = m" "slot ?c (other (target ?c s)) ?s' = []"
    by simp_all
  have "target ?c s = 0 \<and> other (target ?c s) = 1 \<or> target ?c s = 1 \<and> other (target ?c s) = 0"
    by (simp add: target_def other_def)
  with w show "slot ?c (target ?c s) ?s' = m \<and>
     slot ?c (other (target ?c s)) ?s' = [] \<and>
     (m \<noteq> [] \<longrightarrow> (slot ?c 0 ?s' \<noteq> []) \<noteq> (slot ?c 1 ?s' \<noteq> [])) \<and>
     (m = [] \<longrightarrow> slot ?c 0 ?s' = [] \<and> slot ?c 1 ?s' = [])"
    by auto
qed

theorem accepted_announce_slots_witness:
  "accepted initialProvider ''Saved'' noOptions \<and>
   slot Polite 0 (announce 7000 ''a'' ''Saved'' noOptions initialProvider) = ''Saved'' \<and>
   slot Polite 1 (announce 7000 ''a'' ''Saved'' noOptions initialProvider) = []"
proof -
  have acc: "accepted initialProvider ''Saved'' noOptions"
    by (simp add: model_defs)
  have c: "channel noOptions = Polite" "target Polite initialProvider = 0" "other 0 = 1"
    by (simp_all add: model_defs)
  from accepted_announce_slots [where s = initialProvider and m = "''Saved''"
      and opts = noOptions and d = 7000 and g = "''a''"] acc
  have "slot (channel noOptions) (target (channel noOptions) initialProvider)
          (announce 7000 ''a'' ''Saved'' noOptions initialProvider) = ''Saved'' \<and>
        slot (channel noOptions) (other (target (channel noOptions) initialProvider))
          (announce 7000 ''a'' ''Saved'' noOptions initialProvider) = []"
    by blast
  with acc c show ?thesis by simp
qed

section \<open>Three rapid calls\<close>

text \<open>
  Against C7 as written: after the three calls, slot 1 of the polite channel (\<open>polite2\<close>)
  does not hold \<open>Msg 3\<close>.
\<close>

theorem rapid_calls_counterexample:
  "slot Polite 1 (run 0 (rapidCalls ''a'' ''b'' ''c'') initialProvider) \<noteq> ''Msg 3''"
  by (simp add: model_defs)

text \<open>
  C7, amended. From the initial state the three calls are all accepted and write slots
  0, 1 and 0 of the polite channel in turn; at the end \<open>Msg 3\<close> is in slot 0
  (\<open>polite1\<close>), slot 1 is empty, and the cursor of the channel is 1.
\<close>

theorem rapid_calls:
  "writes d Polite (rapidCalls g1 g2 g3) initialProvider = [0, 1, 0] \<and>
   slot Polite 0 (run d (rapidCalls g1 g2 g3) initialProvider) = ''Msg 3'' \<and>
   slot Polite 1 (run d (rapidCalls g1 g2 g3) initialProvider) = [] \<and>
   cursor Polite (run d (rapidCalls g1 g2 g3) initialProvider) = 1"
  by (simp add: model_defs)

section \<open>Suppression\<close>

lemma announce_accepted_changes: "accepted s m opts \<Longrightarrow> announce d g m opts s \<noteq> s"
proof
  assume acc: "accepted s m opts" and eq: "announce d g m opts s = s"
  from target_announce_accepted [OF acc, of d g] eq
  have "target (channel opts) s = other (target (channel opts) s)" by simp
  with other_neq [of "channel opts" s] show False by simp
qed

lemma announce_accepted_memory:
  "accepted s m opts \<Longrightarrow>
     lastRef (channel opts) (announce d g m opts s) =
       \<lparr> message = m, id_s = announcementId (id_o opts) g \<rparr>"
  by (cases "channel opts")
     (auto simp: accepted_def channel_def lastRef_def
        announce_def Let_def writePolite_def writeAssertive_def split: option.splits)

lemma announce_accepted_arms:
  "accepted s m opts \<Longrightarrow> 0 < d \<Longrightarrow>
     clearTimeoutRef (announce d g m opts s) = Some (nextHandle s) \<and>
     (nextHandle s, now s + hostDelay d) \<in> set (timers (announce d g m opts s))"
  by (cases "channel opts")
     (auto simp: accepted_def channel_def lastRef_def
        announce_def Let_def writePolite_def writeAssertive_def armTimer_def setTimeout_def
        clearTimeout_def split: option.splits)

text \<open>
  Against C2 as written: on a new provider the call \<^verbatim>\<open>announce("", { id: "" })\<close> supplies
  an identifier that equals the last identifier of the channel, with a message that equals
  the last message of the channel, and yet the call is not a no-op: the state changes
  and a timeout is set.
\<close>

theorem suppression_rule_counterexample:
  "id_o emptyIdOptions = Some (id_s (lastRef (channel emptyIdOptions) initialProvider)) \<and>
   message (lastRef (channel emptyIdOptions) initialProvider) = [] \<and>
   announce 7000 ''a'' [] emptyIdOptions initialProvider \<noteq> initialProvider \<and>
   timers (announce 7000 ''a'' [] emptyIdOptions initialProvider) \<noteq> timers initialProvider"
proof -
  have t: "timers (announce 7000 ''a'' [] emptyIdOptions initialProvider) \<noteq> timers initialProvider"
    by (simp add: model_defs)
  then have "announce 7000 ''a'' [] emptyIdOptions initialProvider \<noteq> initialProvider"
    by auto
  with t show ?thesis by (simp add: model_defs)
qed

text \<open>
  C2, amended. A call of \<open>announce\<close> leaves the whole state as it was (slots, cursors,
  last-announcement refs and timer) if and only if the caller supplied a non-empty
  identifier that equals the last identifier of the channel and the message equals the
  last message of the channel. In every other case, in particular whenever no identifier
  is supplied, the call is accepted: it writes the message into the slot at the cursor,
  leaves the other slot of the channel empty, flips the cursor, records the message with
  the identifier (the generated one when the supplied one is missing or empty), and
  when the delay is positive it sets a new timeout and stores its handle.
\<close>

theorem suppression_rule:
  "(announce d g m opts s = s \<longleftrightarrow> \<not> accepted s m opts) \<and>
   (\<not> accepted s m opts \<longleftrightarrow>
      (\<exists>x. id_o opts = Some x \<and> x \<noteq> [] \<and>
           x = id_s (lastRef (channel opts) s) \<and> m = message (lastRef (channel opts) s))) \<and>
   (id_o opts = None \<longrightarrow> accepted s m opts) \<and>
   (accepted s m opts \<longrightarrow>
      slot (channel opts) (target (channel opts) s) (announce d g m opts s) = m \<and>
      slot (channel opts) (other (target (channel opts) s)) (announce d g m opts s) = [] \<and>
      target (channel opts) (announce d g m opts s) = other (target (channel opts) s) \<and>
      lastRef (channel opts) (announce d g m opts s) =
        \<lparr> message = m, id_s = announcementId (id_o opts) g \<rparr> \<and>
      (0 < d \<longrightarrow>
         clearTimeoutRef (announce d g m opts s) = Some (nextHandle s) \<and>
         (nextHandle s, now s + hostDelay d) \<in> set (timers (announce d g m opts s))))"
proof (intro conjI)
  show "announce d g m opts s = s \<longleftrightarrow> \<not> accepted s m opts"
    using announce_accepted_changes [of s m opts d g] announce_suppressed [of s m opts d g]
    by blast
  show "\<not> accepted s m opts \<longleftrightarrow>
      (\<exists>x. id_o opts = Some x \<and> x \<noteq> [] \<and>
           x = id_s (lastRef (channel opts) s) \<and> m = message (lastRef (channel opts) s))"
    by (auto simp: accepted_def suppressed_def truthy_def split: option.splits)
  show "id_o opts = None \<longrightarrow> accepted s m opts"
    by (simp add: accepted_def suppressed_def truthy_def)
  show "accepted s m opts \<longrightarrow>
      slot (channel opts) (target (channel opts) s) (announce d g m opts s) = m \<and>
      slot (channel opts) (other (target (channel opts) s)) (announce d g m opts s) = [] \<and>
      target (channel opts) (announce d g m opts s) = other (target (channel opts) s) \<and>
      lastRef (channel opts) (announce d g m opts s) =
        \<lparr> message = m, id_s = announcementId (id_o opts) g \<rparr> \<and>
      (0 < d \<longrightarrow>
         clearTimeoutRef (announce d g m opts s) = Some (nextHandle s) \<and>
         (nextHandle s, now s + hostDelay d) \<in> set (timers (announce d g m opts s)))"
    using announce_writes [of s m opts d g] target_announce_accepted [of s m opts d g]
      announce_accepted_memory [of s m opts d g] announce_accepted_arms [of s m opts d g]
    by blast
qed

theorem suppression_rule_witness:
  "id_o noOptions = None \<and> accepted savedProvider ''Saved'' noOptions \<and> (0::int) < 7000 \<and>
   announce 7000 ''a'' ''Saved'' noOptions savedProvider \<noteq> savedProvider \<and>
   slot Polite 1 (announce 7000 ''a'' ''Saved'' noOptions savedProvider) = ''Saved'' \<and>
   clearTimeoutRef (announce 7000 ''a'' ''Saved'' noOptions savedProvider) = Some 2 \<and>
   \<not> accepted (announce 7000 ''a'' ''Saved'' taggedOptions initialProvider) ''Saved'' taggedOptions \<and>
   announce 7000 ''b'' ''Saved'' taggedOptions
     (announce 7000 ''a'' ''Saved'' taggedOptions initialProvider) =
     announce 7000 ''a'' ''Saved'' taggedOptions initialProvider"
proof -
  have n: "id_o noOptions = None" "channel noOptions = Polite"
    "target Polite savedProvider = 1" "nextHandle savedProvider = 2"
    by (simp_all add: model_defs)
  have acc: "accepted savedProvider ''Saved'' noOptions"
    by (simp add: model_defs)
  have sup: "\<not> accepted (announce 7000 ''a'' ''Saved'' taggedOptions initialProvider)
               ''Saved'' taggedOptions"
    by (simp add: model_defs)
  from suppression_rule [where d = 7000 and g = "''a''" and m = "''Saved''"
      and opts = noOptions and s = savedProvider] acc
  have a: "announce 7000 ''a'' ''Saved'' noOptions savedProvider \<noteq> savedProvider"
    and b: "slot (channel noOptions) (target (channel noOptions) savedProvider)
              (announce 7000 ''a'' ''Saved'' noOptions savedProvider) = ''Saved''"
    and c: "clearTimeoutRef (announce 7000 ''a'' ''Saved'' noOptions savedProvider) =
              Some (nextHandle savedProvider)"
    by simp_all
  from suppression_rule [where d = 7000 and g = "''b''" and m = "''Saved''"
      and opts = taggedOptions and s = "announce 7000 ''a'' ''Saved'' taggedOptions initialProvider"]
    sup
  have e: "announce 7000 ''b'' ''Saved'' taggedOptions
     (announce 7000 ''a'' ''Saved'' taggedOptions initialProvider) =
     announce 7000 ''a'' ''Saved'' taggedOptions initialProvider"
    by blast
  from n acc sup a b c e show ?thesis by simp
qed

section \<open>The hook outside a provider\<close>

lemma announce_generated_unused:
  "truthy (id_o opts) \<Longrightarrow> announce d g m opts s = announce d g' m opts s"
  by (auto simp: announce_def announcementId_def truthy_def Let_def split: option.splits)

lemma announceCall_returns:
  "announceCall d dateNow randomText m optionsArg s =
     Inr (announce d (dateNow @ ''-'' @ take 9 (drop 2 randomText)) m
            (case optionsArg of None \<Rightarrow> \<lparr> priority = None, id_o = None \<rparr> | Some given \<Rightarrow> given) s)"
proof (cases optionsArg)
  case None
  then show ?thesis
    by (simp add: announceCall_def destructure_def generateId_def numberToString_def truthy_def)
next
  case (Some given)
  show ?thesis
  proof (cases "truthy (id_o given)")
    case True
    with Some announce_generated_unused [OF True] show ?thesis
      by (simp add: announceCall_def destructure_def)
  next
    case False
    with Some show ?thesis
      by (simp add: announceCall_def destructure_def generateId_def numberToString_def)
  qed
qed

text \<open>
  C9. A consumer that obtains the operations from \<open>useLiveAnnouncer\<close> with no enclosing
  provider gets the error of the hook, whichever of the four operations it is after and
  whatever the arguments. With an enclosing provider the call returns: the result is the
  operation applied to the nearest provider, with the default options when \<open>options\<close> is
  left out and with the identifier \<open>generateId()\<close> builds. So the only error a call can
  end in is the error of the hook, and only outside a provider; neither a \<open>TypeError\<close> nor
  a \<open>RangeError\<close> is ever raised.
\<close>

theorem hook_error:
  "invokeFromHook d dateNow randomText c [] = Inl OutsideProvider \<and>
   invokeFromHook d dateNow randomText c (s # outer) =
     Inr (invoke d (dateNow @ ''-'' @ take 9 (drop 2 randomText)) (operationOf c) s) \<and>
   (invokeFromHook d dateNow randomText c enclosing = Inl e \<longrightarrow>
      e = OutsideProvider \<and> enclosing = [])"
proof (intro conjI impI)
  show none: "invokeFromHook d dateNow randomText c [] = Inl OutsideProvider"
    by (simp add: invokeFromHook_def useContext_def useLiveAnnouncer_def)
  show some: "invokeFromHook d dateNow randomText c (s # outer) =
     Inr (invoke d (dateNow @ ''-'' @ take 9 (drop 2 randomText)) (operationOf c) s)" for s outer
    by (cases c)
       (simp_all add: invokeFromHook_def useContext_def useLiveAnnouncer_def operationOf_def
          invoke_def announcePolite_def announceAssertive_def announceCall_returns)
  assume raised: "invokeFromHook d dateNow randomText c enclosing = Inl e"
  show "enclosing = []"
  proof (cases enclosing)
    case Nil
    then show ?thesis .
  next
    case (Cons s' outer')
    with raised some [of s' outer'] show ?thesis by simp
  qed
  with raised none show "e = OutsideProvider" by simp
qed

text \<open>
  The witness leaves \<open>options\<close> out, so the default applies and \<open>generateId()\<close> is
  evaluated: \<^verbatim>\<open>announce("Saved")\<close>, outside a provider and inside a new one.
\<close>

theorem hook_error_witness:
  "invokeFromHook 7000 ''1700000000000'' ''0.k3j9x0a1bcd'' (CallAnnounce ''Saved'' None) [] =
     Inl OutsideProvider \<and>
   invokeFromHook 7000 ''1700000000000'' ''0.k3j9x0a1bcd'' (CallAnnounce ''Saved'' None)
     [initialProvider] = Inr savedProvider \<and>
   slots savedProvider = (''Saved'', [], [], []) \<and>
   lastPoliteRef savedProvider = \<lparr> message = ''Saved'', id_s = ''1700000000000-k3j9x0a1b'' \<rparr>"
proof -
  have raised: "invokeFromHook 7000 ''1700000000000'' ''0.k3j9x0a1bcd''
      (CallAnnounce ''Saved'' None) [] = Inl OutsideProvider"
    by (simp add: invokeFromHook_def useContext_def useLiveAnnouncer_def)
  have v: "slots savedProvider = (''Saved'', [], [], [])"
    "lastPoliteRef savedProvider = \<lparr> message = ''Saved'', id_s = ''1700000000000-k3j9x0a1b'' \<rparr>"
    "invoke 7000 ''1700000000000-k3j9x0a1b'' (operationOf (CallAnnounce ''Saved'' None))
       initialProvider = savedProvider"
    by (simp_all add: operationOf_def model_defs)
  from hook_error [where d = 7000 and dateNow = "''1700000000000''"
      and randomText = "''0.k3j9x0a1bcd''" and c = "CallAnnounce ''Saved'' None"
      and s = initialProvider and outer = "[]" and enclosing = "[]" and e = OutsideProvider]
    raised v
  show ?thesis by simp
qed

section \<open>The auto-clear timeout\<close>

lemma timer_inv_cases:
  "timer_inv s \<Longrightarrow>
     timers s = [] \<or> (\<exists>h due. timers s = [(h, due)] \<and> clearTimeoutRef s = Some h)"
proof (cases "timers s")
  case Nil
  then show ?thesis by simp
next
  case (Cons x xs)
  obtain h due where x: "x = (h, due)" by (cases x)
  assume "timer_inv s"
  with Cons x have "Some h = clearTimeoutRef s \<and> xs = []"
    by (simp add: timer_inv_def)
  with Cons x show ?thesis by simp
qed

lemma armTimer_on:
  assumes "timer_inv s" and "0 < d"
  shows "timers (armTimer d s) = [(nextHandle s, now s + hostDelay d)] \<and>
         clearTimeoutRef (armTimer d s) = Some (nextHandle s)"
  using timer_inv_cases [OF assms(1)] assms(2)
  by (auto simp: armTimer_def setTimeout_def clearTimeout_def timer_inv_def
      split: option.splits)

lemma armTimer_off: "\<not> 0 < d \<Longrightarrow> armTimer d s = s"
  by (simp add: armTimer_def)

lemma timer_inv_armTimer: "timer_inv s \<Longrightarrow> timer_inv (armTimer d s)"
proof (cases "0 < d")
  case True
  assume "timer_inv s"
  from armTimer_on [OF this True] show ?thesis by (simp add: timer_inv_def)
next
  case False
  assume "timer_inv s"
  with False show ?thesis by (simp add: armTimer_off)
qed

lemma write_timer_fields [simp]:
  "timers (writePolite m a s) = timers s"
  "clearTimeoutRef (writePolite m a s) = clearTimeoutRef s"
  "nextHandle (writePolite m a s) = nextHandle s"
  "now (writePolite m a s) = now s"
  "timers (writeAssertive m a s) = timers s"
  "clearTimeoutRef (writeAssertive m a s) = clearTimeoutRef s"
  "nextHandle (writeAssertive m a s) = nextHandle s"
  "now (writeAssertive m a s) = now s"
  by (simp_all add: writePolite_def writeAssertive_def Let_def)

lemma announce_accepted_eq:
  "accepted s m opts \<Longrightarrow>
     announce d g m opts s =
       armTimer d (case channel opts of
                     Polite \<Rightarrow> writePolite m (announcementId (id_o opts) g) s
                   | Assertive \<Rightarrow> writeAssertive m (announcementId (id_o opts) g) s)"
  by (cases "channel opts")
     (auto simp: accepted_def channel_def lastRef_def announce_def Let_def split: option.splits)

lemma timer_inv_write:
  "timer_inv (case ch of Polite \<Rightarrow> writePolite m a s | Assertive \<Rightarrow> writeAssertive m a s)
     = timer_inv s"
  by (cases ch) (simp_all add: timer_inv_def)

lemma timer_inv_announce: "timer_inv s \<Longrightarrow> timer_inv (announce d g m opts s)"
proof (cases "accepted s m opts")
  case True
  assume "timer_inv s"
  then show ?thesis
    by (simp add: announce_accepted_eq [OF True] timer_inv_armTimer timer_inv_write)
next
  case False
  assume "timer_inv s"
  with False show ?thesis by (simp add: announce_suppressed)
qed

lemma timer_inv_clear: "timer_inv (clearAnnouncements s) = timer_inv s"
  by (simp add: timer_inv_def clearAnnouncements_def)

lemma advance_timers:
  "timers (advanceTimersByTime t s) = filter (\<lambda>(h, at). \<not> at \<le> now s + int t) (timers s)"
  by (simp add: advanceTimersByTime_def Let_def)

lemma advance_ref: "clearTimeoutRef (advanceTimersByTime t s) = clearTimeoutRef s"
  by (simp add: advanceTimersByTime_def Let_def)

lemma timer_inv_advance:
  assumes "timer_inv s"
  shows "timer_inv (advanceTimersByTime t s)"
  using timer_inv_cases [OF assms]
proof
  assume "timers s = []"
  then show ?thesis by (simp add: timer_inv_def advance_timers)
next
  assume "\<exists>h due. timers s = [(h, due)] \<and> clearTimeoutRef s = Some h"
  then obtain h due where "timers s = [(h, due)]" "clearTimeoutRef s = Some h" by blast
  then show ?thesis by (simp add: timer_inv_def advance_timers advance_ref)
qed

lemma timer_inv_invoke: "timer_inv s \<Longrightarrow> timer_inv (invoke d g opn s)"
  by (cases opn)
     (simp_all add: invoke_def announcePolite_def announceAssertive_def
        timer_inv_announce timer_inv_clear)

lemma timer_inv_step: "timer_inv s \<Longrightarrow> timer_inv (step d ev s)"
  by (cases ev) (simp_all add: step_def timer_inv_invoke timer_inv_advance)

lemma timer_inv_run: "timer_inv s \<Longrightarrow> timer_inv (run d evs s)"
  by (induction evs arbitrary: s) (simp_all add: timer_inv_step)

lemma timer_inv_initial: "timer_inv initialProvider"
  by (simp add: timer_inv_def initialProvider_def)

lemma timer_inv_length: "timer_inv s \<Longrightarrow> length (timers s) \<le> 1"
  using timer_inv_cases [of s] by auto

lemma announce_arms:
  assumes "timer_inv s" and "0 < d" and "accepted s m opts"
  shows "timers (announce d g m opts s) = [(nextHandle s, now s + hostDelay d)]"
    and "clearTimeoutRef (announce d g m opts s) = Some (nextHandle s)"
    and "now (announce d g m opts s) = now s"
proof -
  let ?w = "case channel opts of
              Polite \<Rightarrow> writePolite m (announcementId (id_o opts) g) s
            | Assertive \<Rightarrow> writeAssertive m (announcementId (id_o opts) g) s"
  have f: "nextHandle ?w = nextHandle s" "now ?w = now s"
    by (cases "channel opts"; simp)+
  have "timer_inv ?w" using assms(1) by (simp add: timer_inv_write)
  from armTimer_on [OF this assms(2)] f
  show "timers (announce d g m opts s) = [(nextHandle s, now s + hostDelay d)]"
    and "clearTimeoutRef (announce d g m opts s) = Some (nextHandle s)"
    by (simp_all add: announce_accepted_eq [OF assms(3)])
  show "now (announce d g m opts s) = now s"
    using f by (simp add: announce_accepted_eq [OF assms(3)])
qed

lemma announce_unarmed:
  "\<not> 0 < d \<Longrightarrow> timers (announce d g m opts s) = timers s \<and>
     clearTimeoutRef (announce d g m opts s) = clearTimeoutRef s"
  by (cases "accepted s m opts"; cases "channel opts")
     (simp_all add: announce_accepted_eq announce_suppressed armTimer_off)

lemma advance_fires:
  assumes "filter (\<lambda>(h, at). at \<le> now s + int t) (timers s) \<noteq> []"
  shows "slots (advanceTimersByTime t s) = ([], [], [], []) \<and>
         lastPoliteRef (advanceTimersByTime t s) = \<lparr> message = [], id_s = [] \<rparr> \<and>
         lastAssertiveRef (advanceTimersByTime t s) = \<lparr> message = [], id_s = [] \<rparr>"
proof -
  from assms obtain n where
    "length (filter (\<lambda>(h, at). at \<le> now s + int t) (timers s)) = Suc n"
    by (cases "filter (\<lambda>(h, at). at \<le> now s + int t) (timers s)") auto
  then show ?thesis
    by (simp add: advanceTimersByTime_def Let_def slots_def fire_Suc_fields del: fire.simps)
qed

lemma advance_idle:
  assumes "filter (\<lambda>(h, at). at \<le> now s + int t) (timers s) = []"
  shows "slots (advanceTimersByTime t s) = slots s \<and>
         lastPoliteRef (advanceTimersByTime t s) = lastPoliteRef s \<and>
         lastAssertiveRef (advanceTimersByTime t s) = lastAssertiveRef s"
  using assms by (simp add: advanceTimersByTime_def Let_def slots_def)

lemma no_timers_step: "\<not> 0 < d \<Longrightarrow> timers s = [] \<Longrightarrow> timers (step d ev s) = []"
proof (cases ev)
  case (Advance t)
  assume "timers s = []"
  with Advance show ?thesis by (simp add: step_def advance_timers)
next
  case (Call opn g)
  assume "\<not> 0 < d" "timers s = []"
  with Call show ?thesis
    by (cases opn)
       (simp_all add: step_def invoke_def announcePolite_def announceAssertive_def
          announce_unarmed clearAnnouncements_def)
qed

lemma no_timers_run: "\<not> 0 < d \<Longrightarrow> timers s = [] \<Longrightarrow> timers (run d evs s) = []"
  by (induction evs arbitrary: s) (simp_all add: no_timers_step)

lemma hostDelay_kept: "0 < d \<Longrightarrow> d \<le> 2147483647 \<Longrightarrow> hostDelay d = d"
  by (simp add: hostDelay_def)

text \<open>
  Against C5 as written: with the delay 2147483648, which is positive, the timeout of an
  accepted \<open>announce\<close> is not due 2147483648 after the call but 1 after it, and the text is
  cleared when the clock has advanced by 50.
\<close>

theorem auto_clear_timer_counterexample:
  "(0::int) < 2147483648 \<and> accepted initialProvider ''Saved'' noOptions \<and>
   int 50 < 2147483648 \<and>
   slots (announce 2147483648 ''a'' ''Saved'' noOptions initialProvider) = (''Saved'', [], [], []) \<and>
   timers (announce 2147483648 ''a'' ''Saved'' noOptions initialProvider) = [(1, 1)] \<and>
   slots (advanceTimersByTime 50 (announce 2147483648 ''a'' ''Saved'' noOptions initialProvider)) =
     ([], [], [], [])"
  by (simp add: model_defs)

text \<open>
  C5, amended. A provider that runs with one configured delay \<open>d\<close> (a whole number of
  milliseconds) from its initial state never has more than one pending timeout. When
  \<open>d\<close> is positive and at most 2147483647, an accepted \<open>announce\<close> leaves exactly one
  pending timeout, a new one, due \<open>d\<close> after the time of the call, with its handle in the
  ref (a timeout pending before the call is cancelled). Advancing the clock by \<open>d\<close> or
  more then fires it: all four slots are empty, both last-announcement refs are reset and
  no timeout is pending. Advancing by less than \<open>d\<close> changes no slot and leaves the
  timeout pending. When \<open>d\<close> is 0, no \<open>announce\<close> sets a timeout, no timeout is ever
  pending, and advancing the clock by any amount leaves the slots as they are.
\<close>

theorem auto_clear_timer:
  "length (timers (run d evs initialProvider)) \<le> 1 \<and>
   (0 < d \<and> d \<le> 2147483647 \<and> accepted (run d evs initialProvider) m opts \<longrightarrow>
      timers (announce d g m opts (run d evs initialProvider)) =
        [(nextHandle (run d evs initialProvider), now (run d evs initialProvider) + d)] \<and>
      clearTimeoutRef (announce d g m opts (run d evs initialProvider)) =
        Some (nextHandle (run d evs initialProvider)) \<and>
      (d \<le> int t \<longrightarrow>
         slots (advanceTimersByTime t (announce d g m opts (run d evs initialProvider))) =
           ([], [], [], []) \<and>
         lastPoliteRef (advanceTimersByTime t (announce d g m opts (run d evs initialProvider))) =
           \<lparr> message = [], id_s = [] \<rparr> \<and>
         lastAssertiveRef (advanceTimersByTime t (announce d g m opts (run d evs initialProvider))) =
           \<lparr> message = [], id_s = [] \<rparr> \<and>
         timers (advanceTimersByTime t (announce d g m opts (run d evs initialProvider))) = []) \<and>
      (int t < d \<longrightarrow>
         slots (advanceTimersByTime t (announce d g m opts (run d evs initialProvider))) =
           slots (announce d g m opts (run d evs initialProvider)) \<and>
         timers (advanceTimersByTime t (announce d g m opts (run d evs initialProvider))) =
           timers (announce d g m opts (run d evs initialProvider)))) \<and>
   (d = 0 \<longrightarrow>
      timers (announce d g m opts s) = timers s \<and>
      clearTimeoutRef (announce d g m opts s) = clearTimeoutRef s \<and>
      timers (run d evs initialProvider) = [] \<and>
      slots (advanceTimersByTime t (run d evs initialProvider)) =
        slots (run d evs initialProvider))"
proof (intro conjI impI)
  let ?r = "run d evs initialProvider"
  have inv: "timer_inv ?r" by (simp add: timer_inv_run timer_inv_initial)
  show "length (timers ?r) \<le> 1" by (rule timer_inv_length [OF inv])
  {
    assume h: "0 < d \<and> d \<le> 2147483647 \<and> accepted ?r m opts"
    then have d: "0 < d" and acc: "accepted ?r m opts" and k: "hostDelay d = d"
      by (simp_all add: hostDelay_kept)
    note a = announce_arms [OF inv d acc, of g, unfolded k]
    show "timers (announce d g m opts ?r) = [(nextHandle ?r, now ?r + d)]" by (rule a(1))
    show "clearTimeoutRef (announce d g m opts ?r) = Some (nextHandle ?r)" by (rule a(2))
    {
      assume t: "d \<le> int t"
      then have due: "filter (\<lambda>(h, at). at \<le> now (announce d g m opts ?r) + int t)
                       (timers (announce d g m opts ?r)) \<noteq> []"
        by (simp add: a)
      from advance_fires [OF due]
      show "slots (advanceTimersByTime t (announce d g m opts ?r)) = ([], [], [], [])"
        and "lastPoliteRef (advanceTimersByTime t (announce d g m opts ?r)) =
               \<lparr> message = [], id_s = [] \<rparr>"
        and "lastAssertiveRef (advanceTimersByTime t (announce d g m opts ?r)) =
               \<lparr> message = [], id_s = [] \<rparr>"
        by simp_all
      show "timers (advanceTimersByTime t (announce d g m opts ?r)) = []"
        using t by (simp add: advance_timers a)
    }
    {
      assume t: "int t < d"
      then have idle: "filter (\<lambda>(h, at). at \<le> now (announce d g m opts ?r) + int t)
                       (timers (announce d g m opts ?r)) = []"
        by (simp add: a)
      from advance_idle [OF idle]
      show "slots (advanceTimersByTime t (announce d g m opts ?r)) =
              slots (announce d g m opts ?r)"
        by simp
      show "timers (advanceTimersByTime t (announce d g m opts ?r)) =
              timers (announce d g m opts ?r)"
        using t by (simp add: advance_timers a)
    }
  }
  {
    assume z: "d = 0"
    then have nd: "\<not> 0 < d" by simp
    from announce_unarmed [OF nd, of g m opts s]
    show "timers (announce d g m opts s) = timers s"
      and "clearTimeoutRef (announce d g m opts s) = clearTimeoutRef s"
      by simp_all
    have e: "timers ?r = []"
      by (rule no_timers_run [OF nd]) (simp add: initialProvider_def)
    show "timers ?r = []" by (rule e)
    show "slots (advanceTimersByTime t ?r) = slots ?r"
      using advance_idle [of ?r t] e by simp
  }
qed

text \<open>
  The witness starts from a provider that has a timeout pending: after the announcement
  of \<open>First\<close> at time 0 with delay 1000 and a wait of 400, the timeout with handle 1 is due
  at 1000. The announcement of \<open>Second\<close> cancels it and leaves the timeout with handle 2,
  due at 1400; 999 later the text is still there, 1000 later it is gone.
\<close>

theorem auto_clear_timer_witness:
  "(0::int) < 1000 \<and> (1000::int) \<le> 2147483647 \<and>
   accepted (run 1000 firstThenWait initialProvider) ''Second'' noOptions \<and>
   (1000::int) \<le> int 1000 \<and> int 999 < 1000 \<and>
   timers (run 1000 firstThenWait initialProvider) = [(1, 1000)] \<and>
   timers (announce 1000 ''b'' ''Second'' noOptions (run 1000 firstThenWait initialProvider)) =
     [(2, 1400)] \<and>
   slots (advanceTimersByTime 999
     (announce 1000 ''b'' ''Second'' noOptions (run 1000 firstThenWait initialProvider))) =
     ([], ''Second'', [], []) \<and>
   slots (advanceTimersByTime 1000
     (announce 1000 ''b'' ''Second'' noOptions (run 1000 firstThenWait initialProvider))) =
     ([], [], [], []) \<and>
   slots (advanceTimersByTime 10000
     (run 0 [Call (Announce ''No auto-clear'' noOptions) ''a''] initialProvider)) =
     (''No auto-clear'', [], [], [])"
proof -
  have h: "accepted (run 1000 firstThenWait initialProvider) ''Second'' noOptions"
    by (simp add: model_defs)
  have v: "timers (run 1000 firstThenWait initialProvider) = [(1, 1000)]"
    "nextHandle (run 1000 firstThenWait initialProvider) = 2"
    "now (run 1000 firstThenWait initialProvider) = 400"
    "slots (announce 1000 ''b'' ''Second'' noOptions (run 1000 firstThenWait initialProvider)) =
       ([], ''Second'', [], [])"
    "slots (run 0 [Call (Announce ''No auto-clear'' noOptions) ''a''] initialProvider) =
       (''No auto-clear'', [], [], [])"
    by (simp_all add: model_defs)
  from auto_clear_timer [where d = 1000 and evs = firstThenWait and m = "''Second''"
      and opts = noOptions and g = "''b''" and t = 1000] h
  have a: "timers (announce 1000 ''b'' ''Second'' noOptions (run 1000 firstThenWait initialProvider)) =
             [(nextHandle (run 1000 firstThenWait initialProvider),
               now (run 1000 firstThenWait initialProvider) + 1000)]"
    and b: "slots (advanceTimersByTime 1000
             (announce 1000 ''b'' ''Second'' noOptions (run 1000 firstThenWait initialProvider))) =
             ([], [], [], [])"
    by simp_all
  from auto_clear_timer [where d = 1000 and evs = firstThenWait and m = "''Second''"
      and opts = noOptions and g = "''b''" and t = 999] h
  have b': "slots (advanceTimersByTime 999
             (announce 1000 ''b'' ''Second'' noOptions (run 1000 firstThenWait initialProvider))) =
           slots (announce 1000 ''b'' ''Second'' noOptions (run 1000 firstThenWait initialProvider))"
    by simp
  from auto_clear_timer [where d = 0 and t = 10000
      and evs = "[Call (Announce ''No auto-clear'' noOptions) ''a'']"]
  have c: "slots (advanceTimersByTime 10000
             (run 0 [Call (Announce ''No auto-clear'' noOptions) ''a''] initialProvider)) =
           slots (run 0 [Call (Announce ''No auto-clear'' noOptions) ''a''] initialProvider)"
    by simp
  from h v a b b' c show ?thesis by simp
qed

section \<open>Announcing on change\<close>

lemma message_inv_commit: "message_inv inst \<Longrightarrow> message_inv (snd (commitMessage d p inst))"
  by (auto simp: message_inv_def commitMessage_def messageEffect_def effectDeps_def
      split: option.splits prod.splits if_splits)

lemma message_inv_commits: "message_inv inst \<Longrightarrow> message_inv (commits hist inst)"
proof (induction hist arbitrary: inst)
  case Nil
  then show ?case by simp
next
  case (Cons a hist)
  obtain d p where a: "a = (d, p)" by (cases a)
  from Cons show ?case by (simp add: a message_inv_commit)
qed

lemma message_inv_mounted: "message_inv mountedMessage"
  by (simp add: message_inv_def mountedMessage_def)

lemma commit_iff:
  "message_inv inst \<Longrightarrow>
     (fst (commitMessage d p inst) \<noteq> None) =
       (message_p p \<noteq> [] \<and>
        (message_p p \<noteq> previousMessageRef inst \<or> id_p p \<noteq> previousIdRef inst))"
  by (auto simp: message_inv_def commitMessage_def messageEffect_def effectDeps_def
      split: option.splits prod.splits if_splits)

lemma commit_None_refs:
  "fst (commitMessage d p inst) = None \<Longrightarrow>
     previousMessageRef (snd (commitMessage d p inst)) = previousMessageRef inst \<and>
     previousIdRef (snd (commitMessage d p inst)) = previousIdRef inst"
  by (auto simp: commitMessage_def messageEffect_def split: prod.splits if_splits)

lemma commit_Some:
  "fst (commitMessage d p inst) \<noteq> None \<Longrightarrow>
     fst (commitMessage d p inst) =
       Some (message_p p,
             \<lparr> priority = Some (case priority_p p of None \<Rightarrow> Polite | Some c \<Rightarrow> c),
               id_o = id_p p \<rparr>) \<and>
     previousMessageRef (snd (commitMessage d p inst)) = message_p p \<and>
     previousIdRef (snd (commitMessage d p inst)) = id_p p"
  by (auto simp: commitMessage_def messageEffect_def split: prod.splits if_splits)

text \<open>
  C8. The effect of \<open>LiveAnnouncerMessage\<close> calls \<open>announce\<close> if and only if the message is
  not empty and the message or the identifier differs from the one the refs hold. This
  holds for the body of the effect in every state, and for every commit of a component
  that was mounted and has gone through any sequence of commits (where the effect is
  skipped when its dependencies did not change). When a commit does not call
  \<open>announce\<close>, both refs keep their values; when it does, the call carries the message, the
  priority (polite when none is given) and the identifier, and the refs take the new pair.
\<close>

theorem change_triggered:
  "((fst (messageEffect p inst) \<noteq> None) =
      (message_p p \<noteq> [] \<and>
       (message_p p \<noteq> previousMessageRef inst \<or> id_p p \<noteq> previousIdRef inst))) \<and>
   (fst (messageEffect p inst) = None \<longrightarrow> snd (messageEffect p inst) = inst) \<and>
   ((fst (commitMessage d p (commits hist mountedMessage)) \<noteq> None) =
      (message_p p \<noteq> [] \<and>
       (message_p p \<noteq> previousMessageRef (commits hist mountedMessage) \<or>
        id_p p \<noteq> previousIdRef (commits hist mountedMessage)))) \<and>
   (fst (commitMessage d p inst) = None \<longrightarrow>
      previousMessageRef (snd (commitMessage d p inst)) = previousMessageRef inst \<and>
      previousIdRef (snd (commitMessage d p inst)) = previousIdRef inst) \<and>
   (fst (commitMessage d p inst) \<noteq> None \<longrightarrow>
      fst (commitMessage d p inst) =
        Some (message_p p,
              \<lparr> priority = Some (case priority_p p of None \<Rightarrow> Polite | Some c \<Rightarrow> c),
                id_o = id_p p \<rparr>) \<and>
      previousMessageRef (snd (commitMessage d p inst)) = message_p p \<and>
      previousIdRef (snd (commitMessage d p inst)) = id_p p)"
proof (intro conjI)
  show "(fst (messageEffect p inst) \<noteq> None) =
      (message_p p \<noteq> [] \<and>
       (message_p p \<noteq> previousMessageRef inst \<or> id_p p \<noteq> previousIdRef inst))"
    by (simp add: messageEffect_def)
  show "fst (messageEffect p inst) = None \<longrightarrow> snd (messageEffect p inst) = inst"
    by (simp add: messageEffect_def)
  show "(fst (commitMessage d p (commits hist mountedMessage)) \<noteq> None) =
      (message_p p \<noteq> [] \<and>
       (message_p p \<noteq> previousMessageRef (commits hist mountedMessage) \<or>
        id_p p \<noteq> previousIdRef (commits hist mountedMessage)))"
    by (rule commit_iff) (rule message_inv_commits [OF message_inv_mounted])
  show "fst (commitMessage d p inst) = None \<longrightarrow>
      previousMessageRef (snd (commitMessage d p inst)) = previousMessageRef inst \<and>
      previousIdRef (snd (commitMessage d p inst)) = previousIdRef inst"
    using commit_None_refs [of d p inst] by blast
  show "fst (commitMessage d p inst) \<noteq> None \<longrightarrow>
      fst (commitMessage d p inst) =
        Some (message_p p,
              \<lparr> priority = Some (case priority_p p of None \<Rightarrow> Polite | Some c \<Rightarrow> c),
                id_o = id_p p \<rparr>) \<and>
      previousMessageRef (snd (commitMessage d p inst)) = message_p p \<and>
      previousIdRef (snd (commitMessage d p inst)) = id_p p"
    using commit_Some [of d p inst] by blast
qed

theorem change_triggered_witness:
  "fst (commitMessage 7000 firstProps mountedMessage) =
     Some (''First'', \<lparr> priority = Some Polite, id_o = None \<rparr>) \<and>
   fst (commitMessage 7000 secondProps (commits [(7000, firstProps)] mountedMessage)) \<noteq> None \<and>
   fst (commitMessage 7000 firstProps (commits [(7000, firstProps)] mountedMessage)) = None \<and>
   previousMessageRef (snd (commitMessage 7000 firstProps
     (commits [(7000, firstProps)] mountedMessage))) = ''First''"
proof -
  have v: "message_p firstProps = ''First''" "message_p secondProps = ''Second''"
    "priority_p firstProps = None" "id_p firstProps = None" "id_p secondProps = None"
    "previousMessageRef mountedMessage = []"
    by (simp_all add: firstProps_def secondProps_def mountedMessage_def)
  have r: "previousMessageRef (commits [(7000, firstProps)] mountedMessage) = ''First''"
    "previousIdRef (commits [(7000, firstProps)] mountedMessage) = None"
    by (simp_all add: firstProps_def mountedMessage_def commitMessage_def messageEffect_def
          effectDeps_def)
  have a: "fst (commitMessage 7000 firstProps mountedMessage) \<noteq> None"
    using change_triggered [where d = 7000 and p = firstProps and hist = "[]"] v by simp
  have b: "fst (commitMessage 7000 firstProps mountedMessage) =
     Some (''First'', \<lparr> priority = Some Polite, id_o = None \<rparr>)"
    using change_triggered [where d = 7000 and p = firstProps and inst = mountedMessage] a v
    by simp
  have c: "fst (commitMessage 7000 secondProps (commits [(7000, firstProps)] mountedMessage)) \<noteq> None"
    using change_triggered [where d = 7000 and p = secondProps and hist = "[(7000, firstProps)]"
        and inst = mountedMessage, THEN conjunct2, THEN conjunct2, THEN conjunct1]
      v r by simp
  have "(fst (commitMessage 7000 firstProps (commits [(7000, firstProps)] mountedMessage)) \<noteq> None)
          = False"
    using change_triggered [where d = 7000 and p = firstProps and hist = "[(7000, firstProps)]"
        and inst = mountedMessage, THEN conjunct2, THEN conjunct2, THEN conjunct1]
      v r by simp
  then have e: "fst (commitMessage 7000 firstProps (commits [(7000, firstProps)] mountedMessage)) = None"
    by blast
  have f: "previousMessageRef (snd (commitMessage 7000 firstProps
     (commits [(7000, firstProps)] mountedMessage))) = ''First''"
    using change_triggered [where d = 7000 and p = firstProps
        and inst = "commits [(7000, firstProps)] mountedMessage"] e r
    by simp
  from b c e f show ?thesis by simp
qed

end
